theory Spec2Isabelle
  imports Main "HOL-Library.List_Lexorder"
begin

section \<open>Python strings\<close>

text \<open>
  A Python \<open>str\<close> is a sequence of Unicode code points; \<open>len\<close> counts code points and
  comparison is lexicographic on them. A string is therefore a list of natural numbers, ordered
  by the lexicographic order on lists. String literals of the source are written \<open>lit ''SPY''\<close>.
\<close>

type_synonym codepoint = nat
type_synonym ustr = "codepoint list"

abbreviation (input) lit :: "string \<Rightarrow> ustr" where
  "lit s \<equiv> map of_char s"

text \<open>
  The methods \<open>strip\<close>, \<open>isalpha\<close>, \<open>isupper\<close> and \<open>upper\<close> consult the Unicode character
  database compiled into the interpreter, which is not part of the repository. It is a parameter
  \<open>U\<close> of every function that depends on it: per code point, whether it is whitespace,
  alphabetic (general category L*), lowercase, uppercase or titlecase, and its full uppercase
  mapping (one or more code points).
\<close>

record ucd =
  isspace_c :: "codepoint \<Rightarrow> bool"
  isalpha_c :: "codepoint \<Rightarrow> bool"
  islower_c :: "codepoint \<Rightarrow> bool"
  isupper_c :: "codepoint \<Rightarrow> bool"
  istitle_c :: "codepoint \<Rightarrow> bool"
  toupper_c :: "codepoint \<Rightarrow> ustr"

text \<open>\<open>s.strip()\<close>: leading and trailing whitespace removed.\<close>

definition py_strip :: "ucd \<Rightarrow> ustr \<Rightarrow> ustr" where
  "py_strip U s = rev (dropWhile (isspace_c U) (rev (dropWhile (isspace_c U) s)))"

text \<open>\<open>s.isalpha()\<close>: at least one character and all of them alphabetic.\<close>

definition py_isalpha :: "ucd \<Rightarrow> ustr \<Rightarrow> bool" where
  "py_isalpha U s = (s \<noteq> [] \<and> list_all (isalpha_c U) s)"

text \<open>
  \<open>s.isupper()\<close>: no character is lowercase or titlecase, and at least one is uppercase
  (all cased characters are uppercase and there is at least one cased character).
\<close>

definition py_isupper :: "ucd \<Rightarrow> ustr \<Rightarrow> bool" where
  "py_isupper U s =
     (\<not> list_ex (\<lambda>c. islower_c U c \<or> istitle_c U c) s \<and> list_ex (isupper_c U) s)"

text \<open>\<open>s.upper()\<close>: every character replaced by its uppercase mapping.\<close>

definition py_upper :: "ucd \<Rightarrow> ustr \<Rightarrow> ustr" where
  "py_upper U s = concat (map (toupper_c U) s)"

text \<open>\<open>sep.join(xs)\<close>.\<close>

fun py_join :: "ustr \<Rightarrow> ustr list \<Rightarrow> ustr" where
  "py_join sep [] = []"
| "py_join sep [x] = x"
| "py_join sep (x # y # ys) = x @ sep @ py_join sep (y # ys)"

text \<open>
  \<open>s.splitlines()\<close>: the line boundaries are \<open>\n\<close>, \<open>\r\<close>, \<open>\r\n\<close>, \<open>\v\<close>, \<open>\f\<close>, the
  separators \<open>\x1c\<close>, \<open>\x1d\<close>, \<open>\x1e\<close>, \<open>\x85\<close>, U+2028 and U+2029; the boundaries are
  dropped and a final boundary opens no further line.
\<close>

definition is_linebreak :: "codepoint \<Rightarrow> bool" where
  "is_linebreak c = (c \<in> {0x0A, 0x0B, 0x0C, 0x0D, 0x1C, 0x1D, 0x1E, 0x85, 0x2028, 0x2029})"

fun splitlines_from :: "ustr \<Rightarrow> ustr \<Rightarrow> ustr list" where
  "splitlines_from cur [] = (if cur = [] then [] else [cur])"
| "splitlines_from cur [c] = (if is_linebreak c then [cur] else [cur @ [c]])"
| "splitlines_from cur (c # d # ds) =
     (if c = 0x0D \<and> d = 0x0A then cur # splitlines_from [] ds
      else if is_linebreak c then cur # splitlines_from [] (d # ds)
      else splitlines_from (cur @ [c]) (d # ds))"

definition py_splitlines :: "ustr \<Rightarrow> ustr list" where
  "py_splitlines s = splitlines_from [] s"

text \<open>
  \<open>list(dict.fromkeys(xs))\<close>: the keys are inserted in order and a key that is already present
  keeps its first position.
\<close>

primrec fromkeys_into :: "'a list \<Rightarrow> 'a list \<Rightarrow> 'a list" where
  "fromkeys_into seen [] = seen"
| "fromkeys_into seen (x # xs) =
     fromkeys_into (if x \<in> set seen then seen else seen @ [x]) xs"

definition dict_fromkeys :: "'a list \<Rightarrow> 'a list" where
  "dict_fromkeys xs = fromkeys_into [] xs"

text \<open>
  The entries of the character database for Basic Latin and Latin-1 Supplement
  (U+0000 to U+00FF), used to evaluate the functions on concrete strings. Code points above
  U+00FF are not tabulated here (they are treated as unassigned).
\<close>

definition latin1_ucd :: ucd where
  "latin1_ucd = \<lparr>
     isspace_c = (\<lambda>c. (0x09 \<le> c \<and> c \<le> 0x0D) \<or> (0x1C \<le> c \<and> c \<le> 0x20) \<or> c = 0x85 \<or> c = 0xA0),
     isalpha_c = (\<lambda>c. (0x41 \<le> c \<and> c \<le> 0x5A) \<or> (0x61 \<le> c \<and> c \<le> 0x7A)
                     \<or> c = 0xAA \<or> c = 0xB5 \<or> c = 0xBA
                     \<or> (0xC0 \<le> c \<and> c \<le> 0xD6) \<or> (0xD8 \<le> c \<and> c \<le> 0xF6)
                     \<or> (0xF8 \<le> c \<and> c \<le> 0xFF)),
     islower_c = (\<lambda>c. (0x61 \<le> c \<and> c \<le> 0x7A) \<or> c = 0xAA \<or> c = 0xB5 \<or> c = 0xBA
                     \<or> (0xDF \<le> c \<and> c \<le> 0xF6) \<or> (0xF8 \<le> c \<and> c \<le> 0xFF)),
     isupper_c = (\<lambda>c. (0x41 \<le> c \<and> c \<le> 0x5A) \<or> (0xC0 \<le> c \<and> c \<le> 0xD6)
                     \<or> (0xD8 \<le> c \<and> c \<le> 0xDE)),
     istitle_c = (\<lambda>c. False),
     toupper_c = (\<lambda>c. if (0x61 \<le> c \<and> c \<le> 0x7A) \<or> (0xE0 \<le> c \<and> c \<le> 0xF6)
                          \<or> (0xF8 \<le> c \<and> c \<le> 0xFE) then [c - 0x20]
                       else if c = 0xB5 then [0x39C]
                       else if c = 0xDF then [0x53, 0x53]
                       else if c = 0xFF then [0x178]
                       else [c]) \<rparr>"

section \<open>Validator\<close>

text \<open>\<open>t.replace("-", "")\<close>.\<close>

definition remove_hyphens :: "ustr \<Rightarrow> ustr" where
  "remove_hyphens t = filter (\<lambda>c. c \<noteq> 0x2D) t"

definition is_valid_ticker :: "ucd \<Rightarrow> ustr \<Rightarrow> bool" where
  "is_valid_ticker U t =
     (let t = py_strip U t in
      if t = [] then False
      else (let clean = remove_hyphens t in
            1 \<le> length clean \<and> length clean \<le> 5 \<and> py_isalpha U clean \<and> py_isupper U clean))"

text \<open>
  The validator as the specification words it: after trimming and hyphen removal the remainder
  has length 1 to 5, all its characters are alphabetic, and it equals its own uppercase form.
\<close>

definition validator_spec :: "ucd \<Rightarrow> ustr \<Rightarrow> bool" where
  "validator_spec U s =
     (let r = remove_hyphens (py_strip U s) in
      1 \<le> length r \<and> length r \<le> 5 \<and> list_all (isalpha_c U) r \<and> py_upper U r = r)"

text \<open>
  A character database agrees with ASCII when, on the code points below 128, the letters are
  A-Z and a-z, the uppercase ones A-Z, the lowercase ones a-z, none is titlecase, and
  \<open>upper\<close> maps a-z to A-Z and leaves the rest alone.
\<close>

definition ascii_letters :: "ucd \<Rightarrow> bool" where
  "ascii_letters U =
     list_all (\<lambda>c. isupper_c U c = (0x41 \<le> c \<and> c \<le> 0x5A)
           \<and> islower_c U c = (0x61 \<le> c \<and> c \<le> 0x7A)
           \<and> isalpha_c U c = ((0x41 \<le> c \<and> c \<le> 0x5A) \<or> (0x61 \<le> c \<and> c \<le> 0x7A))
           \<and> \<not> istitle_c U c
           \<and> toupper_c U c = [if 0x61 \<le> c \<and> c \<le> 0x7A then c - 0x20 else c])
       [0..<128]"

section \<open>JSON tree extractor\<close>

text \<open>
  The value returned by \<open>json.loads\<close>: \<open>None\<close>, a bool, a number, a string, a list or a dict
  with string keys. A dict is an association list in insertion order (the order in which
  \<open>values()\<close> iterates) with distinct keys. The extractor never looks at a number, so the
  representation of numbers is a type parameter.
\<close>

datatype 'n json =
    JNull
  | JBool bool
  | JNum 'n
  | JStr ustr
  | JArr "'n json list"
  | JObj "(ustr \<times> 'n json) list"

definition candidate_keys :: "ustr list" where
  "candidate_keys = [lit ''s'', lit ''symbol'', lit ''ticker'', lit ''Symbol'', lit ''Ticker'']"

text \<open>
  The first loop over an object: for each candidate key present whose value is a string that
  passes the validator, the uppercased value is appended.
\<close>

definition key_hit :: "ucd \<Rightarrow> (ustr \<times> 'n json) list \<Rightarrow> ustr \<Rightarrow> ustr list" where
  "key_hit U obj key =
     (case map_of obj key of
        Some (JStr val) \<Rightarrow> if is_valid_ticker U val then [py_upper U val] else []
      | _ \<Rightarrow> [])"

fun extract_tickers_from_json :: "ucd \<Rightarrow> 'n json \<Rightarrow> int \<Rightarrow> ustr list" where
  "extract_tickers_from_json U (JObj obj) depth =
     (if depth > 10 then []
      else concat (map (key_hit U obj) candidate_keys)
           @ concat (map (\<lambda>(k, val). extract_tickers_from_json U val (depth + 1)) obj))"
| "extract_tickers_from_json U (JArr items) depth =
     (if depth > 10 then []
      else concat (map (\<lambda>item. extract_tickers_from_json U item (depth + 1)) items))"
| "extract_tickers_from_json U _ depth = []"

text \<open>
  The same function with the call stack made explicit: \<open>n\<close> is the number of stack frames
  still available, every call takes one, and \<open>None\<close> is the stack overflow
  (\<open>RecursionError\<close>) of a call that finds none left.
\<close>

fun extract_on_stack :: "nat \<Rightarrow> ucd \<Rightarrow> 'n json \<Rightarrow> int \<Rightarrow> ustr list option" where
  "extract_on_stack 0 U obj depth = None"
| "extract_on_stack (Suc n) U (JObj obj) depth =
     (if depth > 10 then Some []
      else map_option (\<lambda>found. concat (map (key_hit U obj) candidate_keys) @ concat found)
             (those (map (\<lambda>(k, val). extract_on_stack n U val (depth + 1)) obj)))"
| "extract_on_stack (Suc n) U (JArr items) depth =
     (if depth > 10 then Some []
      else map_option concat
             (those (map (\<lambda>item. extract_on_stack n U item (depth + 1)) items)))"
| "extract_on_stack (Suc n) U _ depth = Some []"

text \<open>\<open>nested k v\<close> wraps \<open>v\<close> in \<open>k\<close> objects \<open>{"data": ...}\<close>.\<close>

primrec nested :: "nat \<Rightarrow> 'n json \<Rightarrow> 'n json" where
  "nested 0 v = v"
| "nested (Suc k) v = JObj [(lit ''data'', nested k v)]"

text \<open>
  The candidate keys of an object that hold a valid ticker string, and the string held under a
  key.
\<close>

definition holds_ticker :: "ucd \<Rightarrow> (ustr \<times> 'n json) list \<Rightarrow> ustr \<Rightarrow> bool" where
  "holds_ticker U obj key =
     (case map_of obj key of Some (JStr val) \<Rightarrow> is_valid_ticker U val | _ \<Rightarrow> False)"

definition str_at :: "(ustr \<times> 'n json) list \<Rightarrow> ustr \<Rightarrow> ustr" where
  "str_at obj key = (case map_of obj key of Some (JStr val) \<Rightarrow> val | _ \<Rightarrow> [])"

section \<open>The environment: network responses and the output file\<close>

text \<open>
  The exceptions the strategies and the loader can meet. Each strategy catches
  \<open>Exception\<close> without looking at its kind.
\<close>

datatype exn = RequestException | JSONDecodeError | ParserError | ReadError

text \<open>
  The page of stockanalysis.com as the strategy sees it through \<open>re\<close>, \<open>json\<close> and
  BeautifulSoup: \<open>next_data\<close> is \<open>None\<close> when the regular expression for the
  \<open>__NEXT_DATA__\<close> script finds nothing, otherwise what \<open>json.loads\<close> makes of the match (a
  value, or an exception); \<open>stock_links\<close> is the text of every anchor whose \<open>href\<close> starts
  with \<open>/stocks/\<close>, in document order (or the exception of the HTML parser). The response
  itself is an exception when the request fails or the status is not a success.
\<close>

record 'n stockanalysis_page =
  next_data :: "(exn + 'n json) option"
  stock_links :: "exn + ustr list"

text \<open>
  A page of the finviz screener: the number in the first element whose text matches
  \<open>(\d[\d,]+)\s*stocks\<close> (with the commas removed), if any; the text of every anchor of
  class \<open>screener-link-primary\<close>; the \<open>href\<close> of every anchor whose \<open>href\<close> matches
  \<open>quote\.ashx\?t=\<close>. The screener is a function from the row offset in the URL to the
  page, or to the exception that the request or the parser raises.
\<close>

record finviz_soup =
  stocks_total :: "int option"
  primary_links :: "ustr list"
  quote_links :: "ustr list"

type_synonym finviz = "int \<Rightarrow> exn + finviz_soup"

text \<open>
  The output file: absent, holding a text, or present but not readable as text
  (\<open>read_text\<close> raises).
\<close>

datatype file_state = Missing | Text ustr | Unreadable

section \<open>Strategy A: stockanalysis.com\<close>

text \<open>The HTML path: anchor texts stripped and uppercased, validated, deduplicated.\<close>

definition stockanalysis_html :: "ucd \<Rightarrow> 'n stockanalysis_page \<Rightarrow> ustr list" where
  "stockanalysis_html U page =
     (case stock_links page of
        Inl e \<Rightarrow> []
      | Inr links \<Rightarrow>
          (let tickers = filter (is_valid_ticker U) (map (\<lambda>a. py_upper U (py_strip U a)) links);
               tickers = dict_fromkeys tickers
           in if length tickers > 500 then tickers else []))"

definition fetch_from_stockanalysis :: "ucd \<Rightarrow> exn + 'n stockanalysis_page \<Rightarrow> ustr list" where
  "fetch_from_stockanalysis U resp =
     (case resp of
        Inl e \<Rightarrow> []
      | Inr page \<Rightarrow>
          (case next_data page of
             Some (Inl e) \<Rightarrow> []
           | Some (Inr data) \<Rightarrow>
               (let tickers = extract_tickers_from_json U data 0
                in if length tickers > 500 then tickers else stockanalysis_html U page)
           | None \<Rightarrow> stockanalysis_html U page))"

section \<open>Strategy B: finviz.com\<close>

text \<open>
  \<open>re.search(r"t=([A-Z]+)", href)\<close>: the leftmost \<open>t=\<close> that is followed by a capital
  ASCII letter, and the longest run of such letters after it.
\<close>

definition is_AZ :: "codepoint \<Rightarrow> bool" where
  "is_AZ c = (0x41 \<le> c \<and> c \<le> 0x5A)"

fun search_t_param :: "ustr \<Rightarrow> ustr option" where
  "search_t_param (c # d # rest) =
     (if c = 0x74 \<and> d = 0x3D \<and> takeWhile is_AZ rest \<noteq> [] then Some (takeWhile is_AZ rest)
      else search_t_param (d # rest))"
| "search_t_param _ = None"

definition quote_hit :: "ucd \<Rightarrow> ustr \<Rightarrow> ustr list" where
  "quote_hit U href =
     (case search_t_param href of
        Some g \<Rightarrow> if is_valid_ticker U g then [g] else []
      | None \<Rightarrow> [])"

definition parse_finviz_page :: "ucd \<Rightarrow> finviz_soup \<Rightarrow> ustr list" where
  "parse_finviz_page U soup =
     (let tickers = filter (is_valid_ticker U)
                      (map (\<lambda>a. py_upper U (py_strip U a)) (primary_links soup))
      in if tickers \<noteq> [] then tickers
         else dict_fromkeys (concat (map (quote_hit U) (quote_links soup))))"

text \<open>
  The loop over the pages 2 to \<open>max_page\<close>. The state is the list of tickers so far and the
  log of the row offsets requested. A page with no ticker ends the loop, a page that raises is
  skipped.
\<close>

fun paginate ::
  "ucd \<Rightarrow> finviz \<Rightarrow> int \<Rightarrow> int list \<Rightarrow> ustr list \<times> int list \<Rightarrow> ustr list \<times> int list" where
  "paginate U get rows_per_page [] (tickers, requested) = (tickers, requested)"
| "paginate U get rows_per_page (page_num # rest) (tickers, requested) =
     (let r_start = (page_num - 1) * rows_per_page + 1
      in case get r_start of
           Inl e \<Rightarrow> paginate U get rows_per_page rest (tickers, requested @ [r_start])
         | Inr soup \<Rightarrow>
             (let page_tickers = parse_finviz_page U soup
              in if page_tickers = [] then (tickers, requested @ [r_start])
                 else paginate U get rows_per_page rest
                        (tickers @ page_tickers, requested @ [r_start])))"

text \<open>The strategy returns its result and the row offsets it requested, in order.\<close>

definition fetch_from_finviz :: "ucd \<Rightarrow> finviz \<Rightarrow> ustr list \<times> int list" where
  "fetch_from_finviz U get =
     (case get 1 of
        Inl e \<Rightarrow> ([], [1])
      | Inr soup \<Rightarrow>
          (let total = (case stocks_total soup of Some n \<Rightarrow> n | None \<Rightarrow> 2000);
               page_tickers = parse_finviz_page U soup
           in if page_tickers = [] then ([], [1])
              else (let rows_per_page = int (length page_tickers);
                        max_page = min ((total - 1) div rows_per_page + 1) 110;
                        (tickers, requested) =
                           paginate U get rows_per_page [2..max_page] (page_tickers, [1]);
                        tickers = dict_fromkeys tickers
                    in (if length tickers > 500 then tickers else [], requested))))"

text \<open>
  What page number \<open>page_num\<close> yields when it is requested: nothing if the request raises,
  otherwise the tickers parsed from it; and the tickers it adds to the result.
\<close>

definition page_yield :: "ucd \<Rightarrow> finviz \<Rightarrow> int \<Rightarrow> int \<Rightarrow> ustr list option" where
  "page_yield U get rows_per_page page_num =
     (case get ((page_num - 1) * rows_per_page + 1) of
        Inl e \<Rightarrow> None
      | Inr soup \<Rightarrow> Some (parse_finviz_page U soup))"

definition page_tickers :: "ucd \<Rightarrow> finviz \<Rightarrow> int \<Rightarrow> int \<Rightarrow> ustr list" where
  "page_tickers U get rows_per_page page_num =
     (case page_yield U get rows_per_page page_num of Some ts \<Rightarrow> ts | None \<Rightarrow> [])"

text \<open>
  The three-letter tickers \<open>AAA\<close>, \<open>AAB\<close>, \<open>AAC\<close>, ... in order, to build pages
  with many distinct symbols.
\<close>

definition ticker_of :: "nat \<Rightarrow> ustr" where
  "ticker_of n = [0x41 + n div 676, 0x41 + (n div 26) mod 26, 0x41 + n mod 26]"

section \<open>Fallback loader and orchestrator\<close>

definition load_existing :: "ucd \<Rightarrow> file_state \<Rightarrow> exn + ustr list" where
  "load_existing U file =
     (case file of
        Missing \<Rightarrow> Inr []
      | Unreadable \<Rightarrow> Inl ReadError
      | Text s \<Rightarrow>
          (let tickers = map (py_strip U)
                 (filter (\<lambda>t. py_strip U t \<noteq> [] \<and> is_valid_ticker U (py_strip U t))
                    (py_splitlines s))
           in Inr (if tickers \<noteq> [] then tickers else [])))"

definition exclude :: "ustr set" where
  "exclude = set [lit ''SPY'', lit ''QQQ'', lit ''IWM'', lit ''DIA'', lit ''RSP'',
                  lit ''GLD'', lit ''SLV'', lit ''TLT'', lit ''HYG'', lit ''VXX'',
                  lit ''IEMG'', lit ''EFA'', lit ''AGG'', lit ''BND'', lit ''VEA'',
                  lit ''VWO'', lit ''IEFA'', lit ''ITOT'', lit ''IVV'', lit ''VOO'']"

text \<open>The finalize step: filter, \<open>sorted(set(...))\<close>, and the text handed to \<open>write_text\<close>.\<close>

definition finalize :: "ucd \<Rightarrow> ustr list \<Rightarrow> ustr list" where
  "finalize U tickers =
     sorted_list_of_set (set (filter (\<lambda>t. is_valid_ticker U t \<and> t \<notin> exclude) tickers))"

definition output_text :: "ucd \<Rightarrow> ustr list \<Rightarrow> ustr" where
  "output_text U tickers = py_join [0x0A] (finalize U tickers) @ [0x0A]"

text \<open>
  How a run of \<open>main\<close> ends: at the return that keeps the existing file, at the return that
  reports total failure, after writing a text to the output file (the write is taken to
  succeed), or with an exception that nothing catches.
\<close>

datatype outcome = KeptExisting | NoData | Wrote ustr | Raised exn

definition finish :: "ucd \<Rightarrow> ustr list \<Rightarrow> outcome" where
  "finish U tickers = (if tickers = [] then NoData else Wrote (output_text U tickers))"

definition main ::
  "ucd \<Rightarrow> exn + 'n stockanalysis_page \<Rightarrow> finviz \<Rightarrow> file_state \<Rightarrow> outcome" where
  "main U stockanalysis finviz file =
     (let tickers = fetch_from_stockanalysis U stockanalysis;
          tickers = (if length tickers < 500 then fst (fetch_from_finviz U finviz) else tickers)
      in if length tickers < 500 then
           (case load_existing U file of
              Inl e \<Rightarrow> Raised e
            | Inr existing \<Rightarrow> if existing \<noteq> [] then KeptExisting else finish U tickers)
         else finish U tickers)"

text \<open>The output file after a run.\<close>

definition file_after :: "file_state \<Rightarrow> outcome \<Rightarrow> file_state" where
  "file_after file out = (case out of Wrote s \<Rightarrow> Text s | _ \<Rightarrow> file)"

definition run ::
  "ucd \<Rightarrow> exn + 'n stockanalysis_page \<Rightarrow> finviz \<Rightarrow> file_state \<Rightarrow> file_state" where
  "run U stockanalysis finviz file = file_after file (main U stockanalysis finviz file)"

section \<open>Properties of the validator\<close>

lemma ascii_letters_iff:
  "ascii_letters U =
     (\<forall>c<128. isupper_c U c = (0x41 \<le> c \<and> c \<le> 0x5A)
           \<and> islower_c U c = (0x61 \<le> c \<and> c \<le> 0x7A)
           \<and> isalpha_c U c = ((0x41 \<le> c \<and> c \<le> 0x5A) \<or> (0x61 \<le> c \<and> c \<le> 0x7A))
           \<and> \<not> istitle_c U c
           \<and> toupper_c U c = [if 0x61 \<le> c \<and> c \<le> 0x7A then c - 0x20 else c])"
proof -
  have "set [0..<128] = {c. c < (128::nat)}" by auto
  then show ?thesis
    by (simp only: ascii_letters_def list_all_iff Ball_def mem_Collect_eq)
qed

lemma set_py_strip: "set (py_strip U s) \<subseteq> set s"
  unfolding py_strip_def
  by (metis set_dropWhileD set_rev subsetI)

lemma set_remove_hyphens: "set (remove_hyphens s) \<subseteq> set s"
  by (auto simp: remove_hyphens_def)

lemma py_upper_fixed:
  "ascii_letters U \<Longrightarrow> \<forall>c\<in>set r. c < 128 \<Longrightarrow>
   (py_upper U r = r) = (\<forall>c\<in>set r. \<not> (0x61 \<le> c \<and> c \<le> 0x7A))"
proof (induction r)
  case Nil
  then show ?case by (simp add: py_upper_def)
next
  case (Cons a r)
  then have a: "toupper_c U a = [if 0x61 \<le> a \<and> a \<le> 0x7A then a - 0x20 else a]"
    by (simp add: ascii_letters_iff)
  have "py_upper U (a # r) = (if 0x61 \<le> a \<and> a \<le> 0x7A then a - 0x20 else a) # py_upper U r"
    by (simp add: py_upper_def a)
  with Cons show ?case by auto
qed

lemma ascii_isupper:
  assumes "ascii_letters U" "\<forall>c\<in>set r. c < 128" "list_all (isalpha_c U) r" "r \<noteq> []"
  shows "py_isupper U r = (py_upper U r = r)"
proof -
  have up: "\<And>c. c \<in> set r \<Longrightarrow> isupper_c U c = (0x41 \<le> c \<and> c \<le> 0x5A)"
    and lo: "\<And>c. c \<in> set r \<Longrightarrow> islower_c U c = (0x61 \<le> c \<and> c \<le> 0x7A)"
    and ti: "\<And>c. c \<in> set r \<Longrightarrow> \<not> istitle_c U c"
    and al: "\<And>c. c \<in> set r \<Longrightarrow> (0x41 \<le> c \<and> c \<le> 0x5A) \<or> (0x61 \<le> c \<and> c \<le> 0x7A)"
    using assms by (auto simp: ascii_letters_iff list_all_iff)
  obtain c0 where c0: "c0 \<in> set r" using assms(4) by (cases r) auto
  have "py_isupper U r = (\<forall>c\<in>set r. \<not> (0x61 \<le> c \<and> c \<le> 0x7A))"
  proof
    assume "py_isupper U r"
    then show "\<forall>c\<in>set r. \<not> (0x61 \<le> c \<and> c \<le> 0x7A)"
      using lo by (auto simp: py_isupper_def list_ex_iff)
  next
    assume h: "\<forall>c\<in>set r. \<not> (0x61 \<le> c \<and> c \<le> 0x7A)"
    then have "isupper_c U c0" using up[OF c0] al[OF c0] c0 by blast
    then show "py_isupper U r"
      using h lo ti c0 by (auto simp: py_isupper_def list_ex_iff)
  qed
  then show ?thesis using py_upper_fixed[OF assms(1,2)] by simp
qed

text \<open>
  Claim C1, as amended. For every string, the validator returns true exactly when the string,
  stripped of surrounding whitespace and with its hyphens removed, has length 1 to 5, consists
  of alphabetic characters only, and is uppercase in the sense of \<open>isupper\<close>: no lowercase
  or titlecase character and at least one uppercase character. For a string of ASCII
  characters this is the same as the remainder being equal to its own uppercase form, the
  wording of the specification. The validator is a total function to the booleans.
\<close>

theorem is_valid_ticker_characterisation:
  "(is_valid_ticker U t \<longleftrightarrow>
      (let r = remove_hyphens (py_strip U t) in
       1 \<le> length r \<and> length r \<le> 5 \<and> list_all (isalpha_c U) r \<and> py_isupper U r))
   \<and> (ascii_letters U \<longrightarrow> list_all (\<lambda>c. c < 128) t \<longrightarrow>
        is_valid_ticker U t = validator_spec U t)"
proof
  show g: "is_valid_ticker U t \<longleftrightarrow>
      (let r = remove_hyphens (py_strip U t) in
       1 \<le> length r \<and> length r \<le> 5 \<and> list_all (isalpha_c U) r \<and> py_isupper U r)"
    by (auto simp: is_valid_ticker_def Let_def py_isalpha_def remove_hyphens_def)
  show "ascii_letters U \<longrightarrow> list_all (\<lambda>c. c < 128) t \<longrightarrow>
        is_valid_ticker U t = validator_spec U t"
  proof (intro impI)
    assume U: "ascii_letters U" and t: "list_all (\<lambda>c. c < 128) t"
    let ?r = "remove_hyphens (py_strip U t)"
    have r: "\<forall>c\<in>set ?r. c < 128"
      using t set_py_strip[of U t] set_remove_hyphens[of "py_strip U t"]
      by (auto simp: list_all_iff)
    show "is_valid_ticker U t = validator_spec U t"
    proof (cases "?r \<noteq> [] \<and> list_all (isalpha_c U) ?r")
      case True
      then show ?thesis
        using ascii_isupper[OF U r] g by (simp add: validator_spec_def Let_def)
    next
      case False
      then show ?thesis using g by (auto simp: validator_spec_def Let_def)
    qed
  qed
qed

lemma ascii_letters_latin1: "ascii_letters latin1_ucd"
  by (auto simp: ascii_letters_iff latin1_ucd_def)

text \<open>
  The characterisation at \<open>BRK-B\<close> (accepted) and at \<open>ab\<close> (rejected), with the Latin-1
  table.
\<close>

theorem is_valid_ticker_characterisation_witness:
  "ascii_letters latin1_ucd \<and> list_all (\<lambda>c. c < 128) (lit ''BRK-B'')
   \<and> is_valid_ticker latin1_ucd (lit ''BRK-B'') \<and> validator_spec latin1_ucd (lit ''BRK-B'')
   \<and> \<not> is_valid_ticker latin1_ucd (lit ''ab'')"
  using is_valid_ticker_characterisation [of latin1_ucd "lit ''BRK-B''"]
     is_valid_ticker_characterisation [of latin1_ucd "lit ''ab''"] ascii_letters_latin1
  by (simp add: py_strip_def remove_hyphens_def py_isupper_def py_upper_def
      validator_spec_def latin1_ucd_def)

text \<open>
  Claim C1 as the specification states it fails at the one-character string U+00AA (the
  feminine ordinal indicator): it is alphabetic and \<open>upper\<close> leaves it unchanged, so the
  specification's condition holds, but it is not an uppercase character and the validator
  rejects it.
\<close>

theorem validator_spec_counterexample:
  "\<not> is_valid_ticker latin1_ucd [0xAA] \<and> validator_spec latin1_ucd [0xAA]"
  by (simp add: is_valid_ticker_def validator_spec_def py_strip_def remove_hyphens_def
      py_isalpha_def py_isupper_def py_upper_def latin1_ucd_def)

section \<open>Properties of the finalize step\<close>

lemma py_join_lines: "xs \<noteq> [] \<Longrightarrow> py_join sep xs @ sep = concat (map (\<lambda>x. x @ sep) xs)"
  by (induction sep xs rule: py_join.induct) auto

lemma main_Wrote:
  "main U sa fv file = Wrote c \<Longrightarrow>
   c = output_text U (fetch_from_stockanalysis U sa) \<or>
   c = output_text U (fst (fetch_from_finviz U fv))"
  by (auto simp: main_def Let_def finish_def split: if_splits sum.splits)

text \<open>
  Claim C2. The list that the finalize step writes is strictly ascending (sorted, no
  duplicates) and holds exactly the collected symbols that pass the validator and are not in
  the denylist; the text written is that list joined by newlines, followed by one newline
  (when the list is not empty, every symbol followed by a newline); whatever \<open>main\<close> writes is
  this text for the result of one of the two strategies. \<open>SPY\<close> is in the denylist, and the
  raw list \<open>AAPL, AAPL, SPY, MSFT\<close> is written as \<open>AAPL\nMSFT\n\<close>.
\<close>

theorem finalize_output:
  "sorted_wrt (<) (finalize U raw)
   \<and> set (finalize U raw) = {t \<in> set raw. is_valid_ticker U t \<and> t \<notin> exclude}
   \<and> output_text U raw = py_join [0x0A] (finalize U raw) @ [0x0A]
   \<and> (finalize U raw \<noteq> [] \<longrightarrow>
        output_text U raw = concat (map (\<lambda>t. t @ [0x0A]) (finalize U raw)))
   \<and> (main U sa fv file = Wrote c \<longrightarrow>
        c = output_text U (fetch_from_stockanalysis U sa) \<or>
        c = output_text U (fst (fetch_from_finviz U fv)))
   \<and> lit ''SPY'' \<in> exclude
   \<and> output_text latin1_ucd [lit ''AAPL'', lit ''AAPL'', lit ''SPY'', lit ''MSFT'']
       = lit ''AAPL'' @ [0x0A] @ lit ''MSFT'' @ [0x0A]"
proof (intro conjI)
  show "sorted_wrt (<) (finalize U raw)"
    by (simp add: finalize_def)
  show "set (finalize U raw) = {t \<in> set raw. is_valid_ticker U t \<and> t \<notin> exclude}"
    by (auto simp: finalize_def)
  show "output_text U raw = py_join [0x0A] (finalize U raw) @ [0x0A]"
    by (simp add: output_text_def)
  show "finalize U raw \<noteq> [] \<longrightarrow>
        output_text U raw = concat (map (\<lambda>t. t @ [0x0A]) (finalize U raw))"
    by (simp add: output_text_def py_join_lines)
  show "main U sa fv file = Wrote c \<longrightarrow>
        c = output_text U (fetch_from_stockanalysis U sa) \<or>
        c = output_text U (fst (fetch_from_finviz U fv))"
    using main_Wrote by blast
  show "lit ''SPY'' \<in> exclude"
    by (simp add: exclude_def)
  show "output_text latin1_ucd [lit ''AAPL'', lit ''AAPL'', lit ''SPY'', lit ''MSFT'']
       = lit ''AAPL'' @ [0x0A] @ lit ''MSFT'' @ [0x0A]"
    by (simp add: output_text_def finalize_def exclude_def is_valid_ticker_def py_strip_def
        remove_hyphens_def py_isalpha_def py_isupper_def latin1_ucd_def
        sorted_list_of_set_sort_remdups)
qed

section \<open>Properties of the JSON tree extractor\<close>

text \<open>
  Claim C3 does not hold of the code. On \<open>{"data": [{"symbol": "ABCD"}, {"ticker": "wxyz"}]}\<close>
  the extractor returns \<open>ABCD\<close> only: the value \<open>wxyz\<close> is validated as it stands, fails, and
  is never uppercased, although its uppercase form \<open>WXYZ\<close> is a valid ticker.
\<close>

theorem extract_validates_before_upper:
  "extract_tickers_from_json latin1_ucd
     (JObj [(lit ''data'', JArr [JObj [(lit ''symbol'', JStr (lit ''ABCD''))],
                                 JObj [(lit ''ticker'', JStr (lit ''wxyz''))]])] :: int json) 0
   = [lit ''ABCD'']
   \<and> py_upper latin1_ucd (lit ''wxyz'') = lit ''WXYZ''
   \<and> is_valid_ticker latin1_ucd (lit ''WXYZ'')
   \<and> \<not> is_valid_ticker latin1_ucd (lit ''wxyz'')"
  by (simp add: key_hit_def candidate_keys_def is_valid_ticker_def py_strip_def
        remove_hyphens_def py_isalpha_def py_isupper_def py_upper_def latin1_ucd_def)

lemma extract_beyond_cap: "10 < depth \<Longrightarrow> extract_tickers_from_json U v depth = []"
  by (cases v) simp_all

lemma those_Some_cong:
  "(\<And>x. x \<in> set xs \<Longrightarrow> g x = Some (f x)) \<Longrightarrow> those (map g xs) = Some (map f xs)"
  by (induction xs) simp_all

lemma extract_on_stack_enough:
  "nat (12 - depth) \<le> n \<Longrightarrow> 0 < n \<Longrightarrow>
   extract_on_stack n U v depth = Some (extract_tickers_from_json U v depth)"
proof (induction n arbitrary: v depth)
  case 0
  then show ?case by simp
next
  case (Suc n)
  show ?case
  proof (cases "10 < depth")
    case True
    then show ?thesis by (cases v) simp_all
  next
    case False
    with Suc.prems have n: "nat (12 - (depth + 1)) \<le> n" "0 < n" by auto
    note IH = Suc.IH[OF n]
    show ?thesis
    proof (cases v)
      case (JArr items)
      have "those (map (\<lambda>item. extract_on_stack n U item (depth + 1)) items)
            = Some (map (\<lambda>item. extract_tickers_from_json U item (depth + 1)) items)"
        by (rule those_Some_cong) (simp add: IH)
      with JArr False show ?thesis by simp
    next
      case (JObj obj)
      have "those (map (\<lambda>(k, val). extract_on_stack n U val (depth + 1)) obj)
            = Some (map (\<lambda>(k, val). extract_tickers_from_json U val (depth + 1)) obj)"
        by (rule those_Some_cong) (auto simp: IH)
      with JObj False show ?thesis by simp
    qed simp_all
  qed
qed

lemma extract_nested:
  "extract_tickers_from_json U (nested k v) depth
   = (if 10 < depth + int k then [] else extract_tickers_from_json U v (depth + int k))"
proof (induction k arbitrary: depth)
  case 0
  then show ?case by (simp add: extract_beyond_cap)
next
  case (Suc k)
  have "concat (map (key_hit U [(lit ''data'', nested k v)]) candidate_keys) = []"
    by (simp add: key_hit_def candidate_keys_def)
  then show ?case using Suc[of "depth + 1"] by (auto simp: add.assoc)
qed

text \<open>
  Claim C4. For every value the extractor returns, and twelve stack frames are enough for the
  call at depth 0 however deep the value is nested, so that the recursion is bounded by the
  depth counter and not by the input. A call at a depth greater than 10 returns the empty
  list. In particular a value below fifteen nested objects contributes nothing, and the
  traversal of that structure ends within the twelve frames.
\<close>

theorem extract_depth_bounded:
  "extract_on_stack 12 U v 0 = Some (extract_tickers_from_json U v 0)
   \<and> (10 < depth \<longrightarrow> extract_tickers_from_json U v depth = [])
   \<and> extract_tickers_from_json U (nested 15 v) 0 = []
   \<and> extract_on_stack 12 U (nested 15 v) 0 = Some []"
proof (intro conjI impI)
  show "extract_on_stack 12 U v 0 = Some (extract_tickers_from_json U v 0)"
    by (rule extract_on_stack_enough) simp_all
  show "extract_tickers_from_json U (nested 15 v) 0 = []"
    by (simp add: extract_nested)
  then show "extract_on_stack 12 U (nested 15 v) 0 = Some []"
    by (simp add: extract_on_stack_enough)
next
  assume "10 < depth"
  then show "extract_tickers_from_json U v depth = []"
    by (rule extract_beyond_cap)
qed

text \<open>
  The bound at a ticker below ten objects (found, within twelve frames), at depth 11 (nothing
  is returned) and below fifteen objects (nothing is returned).
\<close>

theorem extract_depth_bounded_witness:
  "extract_on_stack 12 latin1_ucd
      (nested 10 (JObj [(lit ''symbol'', JStr (lit ''ABCD''))]) :: int json) 0
     = Some [lit ''ABCD'']
   \<and> (10::int) < 11
   \<and> extract_tickers_from_json latin1_ucd
        (JObj [(lit ''symbol'', JStr (lit ''ABCD''))] :: int json) 11 = []
   \<and> extract_tickers_from_json latin1_ucd
        (nested 15 (JObj [(lit ''symbol'', JStr (lit ''ABCD''))]) :: int json) 0 = []
   \<and> extract_tickers_from_json latin1_ucd
        (nested 10 (JObj [(lit ''symbol'', JStr (lit ''ABCD''))]) :: int json) 0
       = [lit ''ABCD'']"
  using extract_depth_bounded [of latin1_ucd
          "nested 10 (JObj [(lit ''symbol'', JStr (lit ''ABCD''))]) :: int json" 11]
        extract_depth_bounded [of latin1_ucd
          "JObj [(lit ''symbol'', JStr (lit ''ABCD''))] :: int json" 11]
  by (simp add: extract_nested key_hit_def candidate_keys_def is_valid_ticker_def
        py_strip_def remove_hyphens_def py_isalpha_def py_isupper_def py_upper_def latin1_ucd_def)

lemma key_hits_eq:
  "concat (map (key_hit U obj) ks)
   = map (\<lambda>key. py_upper U (str_at obj key)) (filter (holds_ticker U obj) ks)"
  by (induction ks)
     (auto simp: key_hit_def holds_ticker_def str_at_def split: option.splits json.splits)

text \<open>
  Claim C10. For an object visited at a depth within the cap, the result starts with one
  symbol for every candidate key that holds a valid ticker string, in the order of the
  candidate keys: the uppercased value under that key. The check does not stop at the first
  key that matches.
\<close>

theorem extract_collects_every_key:
  "depth \<le> 10 \<Longrightarrow>
   take (length (filter (holds_ticker U obj) candidate_keys))
        (extract_tickers_from_json U (JObj obj) depth)
   = map (\<lambda>key. py_upper U (str_at obj key)) (filter (holds_ticker U obj) candidate_keys)"
  by (simp add: key_hits_eq)

text \<open>
  An object with three matching keys, two of them with the same value, contributes three
  symbols, one of them twice.
\<close>

theorem extract_collects_every_key_witness:
  "(0::int) \<le> 10
   \<and> filter (holds_ticker latin1_ucd
        [(lit ''s'', JStr (lit ''AAA'')), (lit ''name'', JStr (lit ''Triple A'')),
         (lit ''symbol'', JStr (lit ''BBB'')), (lit ''ticker'', JStr (lit ''AAA''))])
        candidate_keys = [lit ''s'', lit ''symbol'', lit ''ticker'']
   \<and> extract_tickers_from_json latin1_ucd
        (JObj [(lit ''s'', JStr (lit ''AAA'')), (lit ''name'', JStr (lit ''Triple A'')),
               (lit ''symbol'', JStr (lit ''BBB'')), (lit ''ticker'', JStr (lit ''AAA''))]
          :: int json) 0
      = [lit ''AAA'', lit ''BBB'', lit ''AAA'']"
  using extract_collects_every_key [of 0 latin1_ucd
        "[(lit ''s'', JStr (lit ''AAA'')), (lit ''name'', JStr (lit ''Triple A'')),
          (lit ''symbol'', JStr (lit ''BBB'')), (lit ''ticker'', JStr (lit ''AAA''))]"]
  by (simp add: key_hit_def holds_ticker_def str_at_def candidate_keys_def is_valid_ticker_def
        py_strip_def remove_hyphens_def py_isalpha_def py_isupper_def py_upper_def latin1_ucd_def)

section \<open>Evaluation on concrete pages\<close>

lemmas ticker_eval = is_valid_ticker_def py_strip_def remove_hyphens_def py_isalpha_def
  py_isupper_def py_upper_def latin1_ucd_def

lemma concat_replicate_single: "concat (replicate n [x]) = replicate n x"
  by (induction n) simp_all

lemma fromkeys_into_replicate:
  "fromkeys_into seen (replicate n x) = (if n = 0 \<or> x \<in> set seen then seen else seen @ [x])"
  by (induction n arbitrary: seen) auto

lemma valid_AAPL: "is_valid_ticker latin1_ucd (lit ''AAPL'')"
  by (simp add: ticker_eval)

lemma upper_AAPL: "py_upper latin1_ucd (lit ''AAPL'') = lit ''AAPL''"
  by (simp add: py_upper_def latin1_ucd_def)

lemma strip_AAPL: "py_strip latin1_ucd (lit ''AAPL'') = lit ''AAPL''"
  by (simp add: py_strip_def latin1_ucd_def)

lemma extract_repeated:
  "extract_tickers_from_json latin1_ucd
     (JArr (replicate n (JObj [(lit ''s'', JStr (lit ''AAPL''))])) :: int json) 0
   = replicate n (lit ''AAPL'')"
proof -
  have "concat (map (key_hit latin1_ucd [(lit ''s'', JStr (lit ''AAPL'') :: int json)])
                  candidate_keys)
        = [lit ''AAPL'']"
    using valid_AAPL upper_AAPL by (simp add: key_hit_def candidate_keys_def)
  then show ?thesis by (simp add: concat_replicate_single)
qed

lemma main_writes_repeated:
  "main latin1_ucd
     (Inr \<lparr>next_data = Some (Inr (JArr (replicate 501 (JObj [(lit ''s'', JStr (lit ''AAPL''))]))
                                  :: int json)),
           stock_links = Inr []\<rparr>) fv file
   = Wrote (lit ''AAPL'' @ [0x0A])"
  using valid_AAPL extract_repeated [of 501]
  by (simp add: main_def finish_def output_text_def finalize_def exclude_def Let_def
      fetch_from_stockanalysis_def del: extract_tickers_from_json.simps)

text \<open>
  The finalize step at the raw list \<open>AAPL, AAPL, SPY, MSFT\<close>, and a run of \<open>main\<close> that
  reaches it: a page whose embedded JSON lists \<open>AAPL\<close> 501 times is written as the one line
  \<open>AAPL\<close>.
\<close>

theorem finalize_output_witness:
  "finalize latin1_ucd [lit ''AAPL'', lit ''AAPL'', lit ''SPY'', lit ''MSFT'']
     = [lit ''AAPL'', lit ''MSFT'']
   \<and> output_text latin1_ucd [lit ''AAPL'', lit ''AAPL'', lit ''SPY'', lit ''MSFT'']
     = concat (map (\<lambda>t. t @ [0x0A]) [lit ''AAPL'', lit ''MSFT''])
   \<and> main latin1_ucd
       (Inr \<lparr>next_data = Some (Inr (JArr (replicate 501 (JObj [(lit ''s'', JStr (lit ''AAPL''))]))
                                  :: int json)),
             stock_links = Inr []\<rparr>) (\<lambda>r. Inl RequestException) Missing
     = Wrote (lit ''AAPL'' @ [0x0A])"
proof -
  let ?raw = "[lit ''AAPL'', lit ''AAPL'', lit ''SPY'', lit ''MSFT'']"
  let ?sa = "Inr \<lparr>next_data = Some (Inr (JArr (replicate 501
                       (JObj [(lit ''s'', JStr (lit ''AAPL''))])) :: int json)),
                  stock_links = Inr []\<rparr>"
  have f: "finalize latin1_ucd ?raw = [lit ''AAPL'', lit ''MSFT'']"
    by (simp add: finalize_def exclude_def ticker_eval sorted_list_of_set_sort_remdups)
  have w: "main latin1_ucd ?sa (\<lambda>r. Inl RequestException) Missing
           = Wrote (lit ''AAPL'' @ [0x0A])"
    by (rule main_writes_repeated)
  show ?thesis
    using f w finalize_output [of latin1_ucd ?raw ?sa "\<lambda>r. Inl RequestException" Missing
                                 "lit ''AAPL'' @ [0x0A]"]
    by simp
qed

section \<open>Properties of strategy A\<close>

text \<open>
  Claim C5 does not hold of the code. A page whose embedded JSON is a list of 501 objects
  \<open>{"s": "AAPL"}\<close> yields one distinct valid symbol, and the strategy returns the 501 copies:
  the embedded-JSON path compares the length of the extracted list, duplicates included, with
  the threshold. The HTML path deduplicates first: 501 anchors with the text \<open>AAPL\<close> give the
  empty list.
\<close>

theorem stockanalysis_json_counts_duplicates:
  "fetch_from_stockanalysis latin1_ucd
     (Inr \<lparr>next_data = Some (Inr (JArr (replicate 501 (JObj [(lit ''s'', JStr (lit ''AAPL''))]))
                                  :: int json)),
           stock_links = Inr []\<rparr>)
   = replicate 501 (lit ''AAPL'')
   \<and> set (replicate 501 (lit ''AAPL'')) = {lit ''AAPL''}
   \<and> fetch_from_stockanalysis latin1_ucd
       (Inr \<lparr>next_data = (None :: (exn + int json) option),
             stock_links = Inr (replicate 501 (lit ''AAPL''))\<rparr>)
     = []"
proof (intro conjI)
  show "fetch_from_stockanalysis latin1_ucd
     (Inr \<lparr>next_data = Some (Inr (JArr (replicate 501 (JObj [(lit ''s'', JStr (lit ''AAPL''))]))
                                  :: int json)),
           stock_links = Inr []\<rparr>)
   = replicate 501 (lit ''AAPL'')"
    using extract_repeated [of 501]
    by (simp add: fetch_from_stockanalysis_def Let_def del: extract_tickers_from_json.simps)
  show "set (replicate 501 (lit ''AAPL'')) = {lit ''AAPL''}"
    by simp
  show "fetch_from_stockanalysis latin1_ucd
       (Inr \<lparr>next_data = (None :: (exn + int json) option),
             stock_links = Inr (replicate 501 (lit ''AAPL''))\<rparr>)
     = []"
    using valid_AAPL upper_AAPL strip_AAPL
    by (simp add: fetch_from_stockanalysis_def stockanalysis_html_def dict_fromkeys_def
        fromkeys_into_replicate)
qed

lemma stockanalysis_html_range:
  "stockanalysis_html U page = [] \<or> 500 < length (stockanalysis_html U page)"
  by (auto simp: stockanalysis_html_def Let_def split: sum.splits)

lemma fetch_from_stockanalysis_range:
  "fetch_from_stockanalysis U resp = [] \<or> 500 < length (fetch_from_stockanalysis U resp)"
  using stockanalysis_html_range
  by (auto simp: fetch_from_stockanalysis_def Let_def split: sum.splits option.splits)

section \<open>Properties of strategy B\<close>

text \<open>
  Claim C7 does not hold of the code. Two anchors of the marker class with the text \<open>AAPL\<close>
  are returned as two entries: the primary method returns its list as collected, before the
  deduplication that ends the function. The same symbol met twice by the secondary method is
  returned once.
\<close>

theorem parse_finviz_page_primary_duplicates:
  "parse_finviz_page latin1_ucd
     \<lparr>stocks_total = None, primary_links = [lit ''AAPL'', lit ''AAPL''], quote_links = []\<rparr>
   = [lit ''AAPL'', lit ''AAPL'']
   \<and> parse_finviz_page latin1_ucd
       \<lparr>stocks_total = None, primary_links = [],
        quote_links = [lit ''quote.ashx?t=AAPL'', lit ''quote.ashx?t=AAPL'']\<rparr>
     = [lit ''AAPL'']"
  using valid_AAPL upper_AAPL strip_AAPL
  by (simp add: parse_finviz_page_def quote_hit_def is_AZ_def dict_fromkeys_def)

lemma fetch_from_finviz_range:
  "fst (fetch_from_finviz U get) = [] \<or> 500 < length (fst (fetch_from_finviz U get))"
  by (auto simp: fetch_from_finviz_def Let_def split: sum.splits prod.splits)

lemma paginate_continue:
  "\<forall>j\<in>set ps. page_yield U get rows j \<noteq> Some [] \<Longrightarrow>
   paginate U get rows (ps @ rest) (acc, log)
   = paginate U get rows rest
       (acc @ concat (map (page_tickers U get rows) ps),
        log @ map (\<lambda>j. (j - 1) * rows + 1) ps)"
proof (induction ps arbitrary: acc log)
  case Nil
  then show ?case by simp
next
  case (Cons p ps)
  then have p: "page_yield U get rows p \<noteq> Some []"
    and ps: "\<forall>j\<in>set ps. page_yield U get rows j \<noteq> Some []" by auto
  show ?case
  proof (cases "get ((p - 1) * rows + 1)")
    case (Inl e)
    then show ?thesis
      using Cons.IH[OF ps] by (simp add: page_tickers_def page_yield_def)
  next
    case (Inr soup)
    with p have "parse_finviz_page U soup \<noteq> []" by (simp add: page_yield_def)
    with Inr show ?thesis
      using Cons.IH[OF ps] by (simp add: page_tickers_def page_yield_def)
  qed
qed

lemma paginate_stop:
  "page_yield U get rows k = Some [] \<Longrightarrow>
   paginate U get rows (k # rest) (acc, log) = (acc, log @ [(k - 1) * rows + 1])"
  by (auto simp: page_yield_def split: sum.splits)

lemma paginate_first_empty:
  assumes "\<forall>j\<in>set ps. page_yield U get rows j \<noteq> Some []"
    and "page_yield U get rows k = Some []"
  shows "paginate U get rows (ps @ k # rest) (acc, log)
         = (acc @ concat (map (page_tickers U get rows) ps),
            log @ map (\<lambda>j. (j - 1) * rows + 1) (ps @ [k]))"
  using paginate_continue[OF assms(1)] paginate_stop[OF assms(2)] by simp

text \<open>
  What \<open>dict_fromkeys\<close> computes: the first occurrence of every element, in order, so that
  the result has no duplicates and the same elements.
\<close>

lemma remdups_snoc: "remdups (zs @ [x]) = remdups (filter (\<lambda>y. y \<noteq> x) zs) @ [x]"
  by (induction zs) auto

lemma first_seen_Cons:
  "rev (remdups (rev (x # ys))) = x # rev (remdups (rev (filter (\<lambda>y. y \<noteq> x) ys)))"
  by (simp add: remdups_snoc rev_filter)

lemma fromkeys_into_first_seen:
  "fromkeys_into seen xs = seen @ rev (remdups (rev (filter (\<lambda>y. y \<notin> set seen) xs)))"
proof (induction xs arbitrary: seen)
  case Nil
  then show ?case by simp
next
  case (Cons x xs)
  show ?case
  proof (cases "x \<in> set seen")
    case True
    then show ?thesis using Cons.IH[of seen] by simp
  next
    case False
    have f: "filter (\<lambda>y. y \<noteq> x) (filter (\<lambda>y. y \<notin> set seen) xs)
             = filter (\<lambda>y. y \<notin> set (seen @ [x])) xs"
      by (induction xs) auto
    have "fromkeys_into seen (x # xs) = fromkeys_into (seen @ [x]) xs"
      using False by simp
    also have "\<dots> = (seen @ [x]) @ rev (remdups (rev (filter (\<lambda>y. y \<notin> set (seen @ [x])) xs)))"
      by (rule Cons.IH)
    also have "\<dots> = seen @ rev (remdups (rev (x # filter (\<lambda>y. y \<notin> set seen) xs)))"
      unfolding first_seen_Cons f by simp
    finally show ?thesis using False by simp
  qed
qed

lemma dict_fromkeys_first_seen: "dict_fromkeys xs = rev (remdups (rev xs))"
  using fromkeys_into_first_seen[of "[]" xs] by (simp add: dict_fromkeys_def)

lemma dict_fromkeys_Cons:
  "dict_fromkeys (x # xs) = x # dict_fromkeys (filter (\<lambda>y. y \<noteq> x) xs)"
  by (simp only: dict_fromkeys_first_seen first_seen_Cons)

lemma distinct_dict_fromkeys: "distinct (dict_fromkeys xs)"
  by (simp add: dict_fromkeys_first_seen)

lemma set_dict_fromkeys: "set (dict_fromkeys xs) = set xs"
  by (simp add: dict_fromkeys_first_seen)

lemma length_dict_fromkeys: "length (dict_fromkeys xs) = card (set xs)"
  using distinct_card[OF distinct_dict_fromkeys, of xs] by (simp add: set_dict_fromkeys)

lemma dict_fromkeys_distinct: "distinct xs \<Longrightarrow> dict_fromkeys xs = xs"
  by (simp add: dict_fromkeys_first_seen distinct_remdups_id)

lemma distinct_fetch_from_finviz: "distinct (fst (fetch_from_finviz U get))"
  by (auto simp: fetch_from_finviz_def Let_def distinct_dict_fromkeys
      split: sum.splits prod.splits)

lemma ticker_of_inj: "ticker_of m = ticker_of n \<Longrightarrow> m = n"
proof -
  assume "ticker_of m = ticker_of n"
  then have a: "m div 676 = n div 676" and b: "(m div 26) mod 26 = (n div 26) mod 26"
    and c: "m mod 26 = n mod 26"
    by (simp_all add: ticker_of_def)
  have "m div 26 div 26 = n div 26 div 26" using a by (simp add: div_mult2_eq[symmetric])
  with b have "m div 26 = n div 26" by (metis div_mult_mod_eq)
  with c show "m = n" by (metis div_mult_mod_eq)
qed

lemma distinct_ticker_of: "distinct (map ticker_of [0..<n])"
  by (simp add: distinct_map inj_on_def ticker_of_inj)

lemma three_capitals_clean:
  assumes "a < 26" "b < 26" "c < 26"
  shows "py_strip latin1_ucd [0x41 + a, 0x41 + b, 0x41 + c] = [0x41 + a, 0x41 + b, 0x41 + c]"
    and "is_valid_ticker latin1_ucd [0x41 + a, 0x41 + b, 0x41 + c]"
    and "py_upper latin1_ucd [0x41 + a, 0x41 + b, 0x41 + c] = [0x41 + a, 0x41 + b, 0x41 + c]"
proof -
  show s: "py_strip latin1_ucd [0x41 + a, 0x41 + b, 0x41 + c]
           = [0x41 + a, 0x41 + b, 0x41 + c]"
    using assms by (simp add: py_strip_def latin1_ucd_def)
  have "(let clean = remove_hyphens [0x41 + a, 0x41 + b, 0x41 + c] in
            1 \<le> length clean \<and> length clean \<le> 5 \<and> py_isalpha latin1_ucd clean
            \<and> py_isupper latin1_ucd clean)"
    using assms by (simp add: remove_hyphens_def py_isalpha_def py_isupper_def latin1_ucd_def)
  then show "is_valid_ticker latin1_ucd [0x41 + a, 0x41 + b, 0x41 + c]"
    unfolding is_valid_ticker_def s by simp
  show "py_upper latin1_ucd [0x41 + a, 0x41 + b, 0x41 + c] = [0x41 + a, 0x41 + b, 0x41 + c]"
    using assms by (simp add: py_upper_def latin1_ucd_def)
qed

lemma ticker_of_clean:
  assumes "n < 17576"
  shows "is_valid_ticker latin1_ucd (ticker_of n)"
    and "py_strip latin1_ucd (ticker_of n) = ticker_of n"
    and "py_upper latin1_ucd (ticker_of n) = ticker_of n"
proof -
  have r: "n div 676 < 26" "(n div 26) mod 26 < 26" "n mod 26 < 26"
    using assms by auto
  show "is_valid_ticker latin1_ucd (ticker_of n)"
    unfolding ticker_of_def by (rule three_capitals_clean(2)[OF r])
  show "py_strip latin1_ucd (ticker_of n) = ticker_of n"
    unfolding ticker_of_def by (rule three_capitals_clean(1)[OF r])
  show "py_upper latin1_ucd (ticker_of n) = ticker_of n"
    unfolding ticker_of_def by (rule three_capitals_clean(3)[OF r])
qed

lemma parse_ticker_page:
  assumes "n \<le> 17576" "0 < n"
  shows "parse_finviz_page latin1_ucd
           \<lparr>stocks_total = t, primary_links = map ticker_of [0..<n], quote_links = q\<rparr>
         = map ticker_of [0..<n]"
proof -
  have m: "map (\<lambda>a. py_upper latin1_ucd (py_strip latin1_ucd a)) (map ticker_of [0..<n])
           = map ticker_of [0..<n]"
    using assms by (simp add: ticker_of_clean)
  have f: "filter (is_valid_ticker latin1_ucd) (map ticker_of [0..<n]) = map ticker_of [0..<n]"
    using assms by (intro filter_True) (auto simp: ticker_of_clean)
  have "map ticker_of [0..<n] \<noteq> []" using assms by simp
  then show ?thesis
    unfolding parse_finviz_page_def
    by (simp only: finviz_soup.simps m f Let_def if_True not_False_eq_True simp_thms)
qed

lemma first_seen_twice: "distinct p \<Longrightarrow> rev (remdups (rev (p @ p))) = p"
  by (simp add: remdups_append distinct_remdups_id)

text \<open>
  Claim C6. Let page 1 be fetched. If it yields no symbol, the strategy returns the empty
  list and the only request made is the one for page 1. Otherwise let \<open>k\<close>, between 2 and
  \<open>max_page\<close>, be the first page that is fetched and yields no symbol (no page before it
  yields the empty list; in particular when all of them succeeded), and let \<open>collected\<close> be
  what the pages 1 to \<open>k - 1\<close> yielded, in order. Then the requests made are those for the
  pages 1 to \<open>k\<close> and no more. The result is the deduplication of \<open>collected\<close> if that has
  more than 500 entries, and the empty list otherwise. The deduplication is spelled out: if
  \<open>collected\<close> has more than 500 distinct symbols, the result is \<open>collected\<close> with every
  symbol kept at its first occurrence only (\<open>remdups\<close> keeps the last occurrence, so on the
  reversed list it keeps the first), it has no duplicates, the same symbols as \<open>collected\<close>
  and as many entries as there are distinct symbols; otherwise the result is empty.
\<close>

theorem finviz_pagination:
  assumes "get 1 = Inr soup"
    and "total_rows = (case stocks_total soup of Some n \<Rightarrow> n | None \<Rightarrow> 2000)"
    and "rows = int (length (parse_finviz_page U soup))"
    and "max_page = min ((total_rows - 1) div rows + 1) 110"
  shows "(parse_finviz_page U soup = [] \<longrightarrow> fetch_from_finviz U get = ([], [1]))
    \<and> (parse_finviz_page U soup \<noteq> [] \<and> 2 \<le> k \<and> k \<le> max_page
        \<and> (\<forall>j\<in>set [2..k - 1]. page_yield U get rows j \<noteq> Some [])
        \<and> page_yield U get rows k = Some []
       \<longrightarrow> (let collected = concat (map (page_tickers U get rows) [1..k - 1]);
                 result = fst (fetch_from_finviz U get)
             in fetch_from_finviz U get
                  = (let tickers = dict_fromkeys collected
                     in if length tickers > 500 then tickers else [],
                     map (\<lambda>j. (j - 1) * rows + 1) [1..k])
                \<and> result = (if 500 < card (set collected)
                             then rev (remdups (rev collected)) else [])
                \<and> distinct result
                \<and> (500 < card (set collected) \<longrightarrow>
                      set result = set collected \<and> length result = card (set collected))))"
proof (intro conjI impI)
  assume "parse_finviz_page U soup = []"
  then show "fetch_from_finviz U get = ([], [1])"
    using assms(1) by (simp add: fetch_from_finviz_def)
next
  assume h: "parse_finviz_page U soup \<noteq> [] \<and> 2 \<le> k \<and> k \<le> max_page
        \<and> (\<forall>j\<in>set [2..k - 1]. page_yield U get rows j \<noteq> Some [])
        \<and> page_yield U get rows k = Some []"
  let ?p1 = "parse_finviz_page U soup"
  let ?all = "concat (map (page_tickers U get rows) [1..k - 1])"
  have split: "[2..max_page] = [2..k - 1] @ k # [k + 1..max_page]"
    using h by (simp add: upto_split3)
  have pag: "paginate U get rows [2..max_page] (?p1, [1])
        = (?p1 @ concat (map (page_tickers U get rows) [2..k - 1]),
           [1] @ map (\<lambda>j. (j - 1) * rows + 1) ([2..k - 1] @ [k]))"
    unfolding split using h by (intro paginate_first_empty) auto
  have one: "page_tickers U get rows 1 = ?p1"
    using assms(1) by (simp add: page_tickers_def page_yield_def)
  have l1: "[1..k - 1] = 1 # [2..k - 1]"
    using h by (simp add: upto_rec1)
  have l2: "[1..k] = 1 # [2..k - 1] @ [k]"
    using h upto_rec1[of 1 k] upto_rec2[of 2 k] by simp
  have tick: "?p1 @ concat (map (page_tickers U get rows) [2..k - 1]) = ?all"
    by (simp add: l1 one)
  have lg: "[1] @ map (\<lambda>j. (j - 1) * rows + 1) ([2..k - 1] @ [k])
        = map (\<lambda>j. (j - 1) * rows + 1) [1..k]"
    by (simp add: l2)
  have E: "fetch_from_finviz U get
            = (let tickers = dict_fromkeys ?all
               in if length tickers > 500 then tickers else [],
               map (\<lambda>j. (j - 1) * rows + 1) [1..k])"
    using h assms pag tick lg
    by (simp add: fetch_from_finviz_def Let_def)
  define c where "c = ?all"
  have E': "fetch_from_finviz U get
            = (let tickers = dict_fromkeys c
               in if length tickers > 500 then tickers else [],
               map (\<lambda>j. (j - 1) * rows + 1) [1..k])"
    using E by (simp only: c_def)
  have L: "length (dict_fromkeys c) = card (set c)"
    by (rule length_dict_fromkeys)
  have F: "dict_fromkeys c = rev (remdups (rev c))"
    by (rule dict_fromkeys_first_seen)
  have R0: "fst (fetch_from_finviz U get)
            = (if 500 < card (set c) then dict_fromkeys c else [])"
    using L by (simp add: E' Let_def)
  have R: "fst (fetch_from_finviz U get)
           = (if 500 < card (set c) then rev (remdups (rev c)) else [])"
    using R0 by (simp only: F)
  have D: "distinct (fst (fetch_from_finviz U get))"
    by (rule distinct_fetch_from_finviz)
  have S: "500 < card (set c) \<longrightarrow>
             set (fst (fetch_from_finviz U get)) = set c
             \<and> length (fst (fetch_from_finviz U get)) = card (set c)"
    using L by (simp add: R0 set_dict_fromkeys)
  have "let collected = c; result = fst (fetch_from_finviz U get)
        in fetch_from_finviz U get
             = (let tickers = dict_fromkeys collected
                in if length tickers > 500 then tickers else [],
                map (\<lambda>j. (j - 1) * rows + 1) [1..k])
           \<and> result = (if 500 < card (set collected)
                        then rev (remdups (rev collected)) else [])
           \<and> distinct result
           \<and> (500 < card (set collected) \<longrightarrow>
                 set result = set collected \<and> length result = card (set collected))"
    using E' R D S by (simp only: Let_def)
  then show "let collected = ?all; result = fst (fetch_from_finviz U get)
        in fetch_from_finviz U get
             = (let tickers = dict_fromkeys collected
                in if length tickers > 500 then tickers else [],
                map (\<lambda>j. (j - 1) * rows + 1) [1..k])
           \<and> result = (if 500 < card (set collected)
                        then rev (remdups (rev collected)) else [])
           \<and> distinct result
           \<and> (500 < card (set collected) \<longrightarrow>
                 set result = set collected \<and> length result = card (set collected))"
    by (simp only: c_def)
qed

text \<open>
  A screener whose first page is empty; one with two rows per page and ten rows announced
  whose page 2 succeeds and whose page 3 is empty (the requests are for the rows 1, 3 and 5,
  and the four symbols of the pages 1 and 2 are below the threshold); and one whose pages 1
  and 2 both list the 501 tickers \<open>AAA\<close>, \<open>AAB\<close>, ... and whose page 3 is empty: the
  1002 collected symbols are returned as the 501 distinct ones, in the order of page 1, after
  requests for the rows 1, 502 and 1003.
\<close>

theorem finviz_pagination_witness:
  "fetch_from_finviz latin1_ucd
     (\<lambda>r. Inr \<lparr>stocks_total = None, primary_links = [], quote_links = []\<rparr>) = ([], [1])
   \<and> page_yield latin1_ucd
       (\<lambda>r. if r = 1 then Inr \<lparr>stocks_total = Some 10,
                                primary_links = [lit ''AAPL'', lit ''MSFT''], quote_links = []\<rparr>
            else if r = 3 then Inr \<lparr>stocks_total = None,
                                primary_links = [lit ''GE'', lit ''IBM''], quote_links = []\<rparr>
            else Inr \<lparr>stocks_total = None, primary_links = [], quote_links = []\<rparr>) 2 2
     = Some [lit ''GE'', lit ''IBM'']
   \<and> page_yield latin1_ucd
       (\<lambda>r. if r = 1 then Inr \<lparr>stocks_total = Some 10,
                                primary_links = [lit ''AAPL'', lit ''MSFT''], quote_links = []\<rparr>
            else if r = 3 then Inr \<lparr>stocks_total = None,
                                primary_links = [lit ''GE'', lit ''IBM''], quote_links = []\<rparr>
            else Inr \<lparr>stocks_total = None, primary_links = [], quote_links = []\<rparr>) 2 3
     = Some []
   \<and> fetch_from_finviz latin1_ucd
       (\<lambda>r. if r = 1 then Inr \<lparr>stocks_total = Some 10,
                                primary_links = [lit ''AAPL'', lit ''MSFT''], quote_links = []\<rparr>
            else if r = 3 then Inr \<lparr>stocks_total = None,
                                primary_links = [lit ''GE'', lit ''IBM''], quote_links = []\<rparr>
            else Inr \<lparr>stocks_total = None, primary_links = [], quote_links = []\<rparr>)
     = ([], [1, 3, 5])
   \<and> page_tickers latin1_ucd
       (\<lambda>r. if r = 1 \<or> r = 502
            then Inr \<lparr>stocks_total = None, primary_links = map ticker_of [0..<501],
                      quote_links = []\<rparr>
            else Inr \<lparr>stocks_total = None, primary_links = [], quote_links = []\<rparr>) 501 1
     = map ticker_of [0..<501]
   \<and> page_tickers latin1_ucd
       (\<lambda>r. if r = 1 \<or> r = 502
            then Inr \<lparr>stocks_total = None, primary_links = map ticker_of [0..<501],
                      quote_links = []\<rparr>
            else Inr \<lparr>stocks_total = None, primary_links = [], quote_links = []\<rparr>) 501 2
     = map ticker_of [0..<501]
   \<and> page_yield latin1_ucd
       (\<lambda>r. if r = 1 \<or> r = 502
            then Inr \<lparr>stocks_total = None, primary_links = map ticker_of [0..<501],
                      quote_links = []\<rparr>
            else Inr \<lparr>stocks_total = None, primary_links = [], quote_links = []\<rparr>) 501 3
     = Some []
   \<and> fetch_from_finviz latin1_ucd
       (\<lambda>r. if r = 1 \<or> r = 502
            then Inr \<lparr>stocks_total = None, primary_links = map ticker_of [0..<501],
                      quote_links = []\<rparr>
            else Inr \<lparr>stocks_total = None, primary_links = [], quote_links = []\<rparr>)
     = (map ticker_of [0..<501], [1, 502, 1003])
   \<and> length (map ticker_of [0..<501]) = 501
   \<and> distinct (map ticker_of [0..<501])"
proof -
  let ?none = "\<lparr>stocks_total = None, primary_links = [], quote_links = []\<rparr>"
  let ?one = "\<lparr>stocks_total = Some 10, primary_links = [lit ''AAPL'', lit ''MSFT''],
               quote_links = []\<rparr>"
  let ?two = "\<lparr>stocks_total = None, primary_links = [lit ''GE'', lit ''IBM''],
               quote_links = []\<rparr>"
  let ?get = "\<lambda>r::int. if r = 1 then Inr ?one else if r = 3 then Inr ?two else Inr ?none"
  have e: "parse_finviz_page latin1_ucd ?none = []"
    by (simp add: parse_finviz_page_def dict_fromkeys_def)
  have first: "fetch_from_finviz latin1_ucd (\<lambda>r. Inr ?none) = ([], [1])"
    using finviz_pagination [of "\<lambda>r. Inr ?none" ?none 2000 0 latin1_ucd 1 2] e
    by simp
  have p1: "parse_finviz_page latin1_ucd ?one = [lit ''AAPL'', lit ''MSFT'']"
    by (simp add: parse_finviz_page_def ticker_eval)
  have p2: "parse_finviz_page latin1_ucd ?two = [lit ''GE'', lit ''IBM'']"
    by (simp add: parse_finviz_page_def ticker_eval)
  have a1: "?get 1 = Inr ?one" by simp
  have a2: "(10::int) = (case stocks_total ?one of Some n \<Rightarrow> n | None \<Rightarrow> 2000)" by simp
  have a3: "(2::int) = int (length (parse_finviz_page latin1_ucd ?one))"
    using p1 by simp
  have a4: "(5::int) = min ((10 - 1) div 2 + 1) 110" by simp
  have y2: "page_yield latin1_ucd ?get 2 2 = Some [lit ''GE'', lit ''IBM'']"
    using p2 by (simp add: page_yield_def)
  have y3: "page_yield latin1_ucd ?get 2 3 = Some []"
    using e by (simp add: page_yield_def)
  have t1: "page_tickers latin1_ucd ?get 2 1 = [lit ''AAPL'', lit ''MSFT'']"
    using p1 by (simp add: page_tickers_def page_yield_def)
  have t2: "page_tickers latin1_ucd ?get 2 2 = [lit ''GE'', lit ''IBM'']"
    using y2 by (simp add: page_tickers_def)
  have "fetch_from_finviz latin1_ucd ?get
            = (let tickers = dict_fromkeys
                     (concat (map (page_tickers latin1_ucd ?get 2) [1..3 - 1]))
               in if length tickers > 500 then tickers else [],
               map (\<lambda>j. (j - 1) * 2 + 1) [1..3])"
    using finviz_pagination [of ?get ?one 10 2 latin1_ucd 5 3, OF a1 a2 a3 a4] p1 y2 y3
    by (simp add: Let_def)
  then have second: "fetch_from_finviz latin1_ucd ?get = ([], [1, 3, 5])"
    using t1 t2 by (simp add: dict_fromkeys_def Let_def upto.simps)
  define p where "p = map ticker_of [0..<501]"
  let ?big = "\<lparr>stocks_total = None, primary_links = p, quote_links = []\<rparr>"
  let ?G = "\<lambda>r::int. if r = 1 \<or> r = 502 then Inr ?big else Inr ?none"
  have lp: "length p = 501" by (simp add: p_def)
  have dp: "distinct p" unfolding p_def by (rule distinct_ticker_of)
  have pp: "parse_finviz_page latin1_ucd ?big = p"
    unfolding p_def by (rule parse_ticker_page) simp_all
  have pne: "p \<noteq> []" using lp by auto
  have b1: "?G 1 = Inr ?big" by simp
  have b2: "(2000::int) = (case stocks_total ?big of Some n \<Rightarrow> n | None \<Rightarrow> 2000)" by simp
  have b3: "(501::int) = int (length (parse_finviz_page latin1_ucd ?big))"
    by (simp add: pp lp)
  have b4: "(4::int) = min ((2000 - 1) div 501 + 1) 110" by simp
  have g1: "page_tickers latin1_ucd ?G 501 1 = p"
    using pp by (simp add: page_tickers_def page_yield_def)
  have z2: "page_yield latin1_ucd ?G 501 2 = Some p"
    using pp by (simp add: page_yield_def)
  then have g2: "page_tickers latin1_ucd ?G 501 2 = p"
    by (simp add: page_tickers_def)
  have z3: "page_yield latin1_ucd ?G 501 3 = Some []"
    using e by (simp add: page_yield_def)
  have col: "concat (map (page_tickers latin1_ucd ?G 501) [1..3 - 1]) = p @ p"
    using g1 g2 by (simp add: upto.simps)
  have hyp: "parse_finviz_page latin1_ucd ?big \<noteq> [] \<and> (2::int) \<le> 3 \<and> (3::int) \<le> 4
        \<and> (\<forall>j\<in>set [2..3 - 1]. page_yield latin1_ucd ?G 501 j \<noteq> Some [])
        \<and> page_yield latin1_ucd ?G 501 3 = Some []"
    using pne z2 z3 by (simp add: pp upto.simps)
  have cd: "card (set (p @ p)) = 501"
    using distinct_card[OF dp] lp by simp
  note T = finviz_pagination [of ?G ?big 2000 501 latin1_ucd 4 3, OF b1 b2 b3 b4]
  from T hyp have C:
    "let collected = concat (map (page_tickers latin1_ucd ?G 501) [1..3 - 1]);
         result = fst (fetch_from_finviz latin1_ucd ?G)
     in fetch_from_finviz latin1_ucd ?G
          = (let tickers = dict_fromkeys collected
             in if length tickers > 500 then tickers else [],
             map (\<lambda>j. (j - 1) * 501 + 1) [1..3])
        \<and> result = (if 500 < card (set collected)
                     then rev (remdups (rev collected)) else [])
        \<and> distinct result
        \<and> (500 < card (set collected) \<longrightarrow>
              set result = set collected \<and> length result = card (set collected))"
    by blast
  note C' = C[unfolded Let_def col]
  from C' have "fst (fetch_from_finviz latin1_ucd ?G)
          = (if 500 < card (set (p @ p)) then rev (remdups (rev (p @ p))) else [])"
    by blast
  then have f3: "fst (fetch_from_finviz latin1_ucd ?G) = p"
    unfolding cd first_seen_twice[OF dp] by simp
  from C' have "snd (fetch_from_finviz latin1_ucd ?G) = map (\<lambda>j. (j - 1) * 501 + 1) [1..3]"
    by (metis snd_conv)
  then have s3: "snd (fetch_from_finviz latin1_ucd ?G) = [1, 502, 1003]"
    by (simp add: upto.simps)
  from f3 s3 have "fst (fetch_from_finviz latin1_ucd ?G) = p
        \<and> snd (fetch_from_finviz latin1_ucd ?G) = [1, 502, 1003]"
    by blast
  then have third: "fetch_from_finviz latin1_ucd ?G = (p, [1, 502, 1003])"
    by (simp add: prod_eq_iff)
  show ?thesis
    using first y2 y3 second g1 g2 z3 third lp dp unfolding p_def by simp
qed

section \<open>Properties of the orchestrator\<close>

lemma main_below_threshold:
  assumes "length (fetch_from_stockanalysis U sa) < 500"
    and "length (fst (fetch_from_finviz U fv)) < 500"
  shows "main U sa fv file =
           (case load_existing U file of
              Inl e \<Rightarrow> Raised e
            | Inr existing \<Rightarrow> if existing \<noteq> [] then KeptExisting else NoData)"
proof -
  have "fst (fetch_from_finviz U fv) = []"
    using assms(2) fetch_from_finviz_range[of U fv] by auto
  then show ?thesis
    using assms(1) by (simp add: main_def Let_def finish_def split: sum.splits)
qed

text \<open>
  Claim C8. If both strategies return fewer than 500 symbols, \<open>main\<close> does not end at the
  write, the output file after the run is the file before it, and when the fallback loader
  finds valid tickers in the existing file the run ends at the return that keeps it.
\<close>

theorem main_preserves_file:
  "length (fetch_from_stockanalysis U sa) < 500 \<Longrightarrow>
   length (fst (fetch_from_finviz U fv)) < 500 \<Longrightarrow>
   (\<forall>c. main U sa fv file \<noteq> Wrote c)
   \<and> run U sa fv file = file
   \<and> (\<forall>existing. load_existing U file = Inr existing \<longrightarrow> existing \<noteq> [] \<longrightarrow>
         main U sa fv file = KeptExisting)"
  by (auto simp: main_below_threshold run_def file_after_def split: sum.splits)

text \<open>
  Both requests fail and the file holds \<open>AAPL\<close> and \<open>MSFT\<close>: the loader returns the two
  tickers and the file is kept.
\<close>

theorem main_preserves_file_witness:
  "length (fetch_from_stockanalysis latin1_ucd
             (Inl RequestException :: exn + int stockanalysis_page)) < 500
   \<and> length (fst (fetch_from_finviz latin1_ucd (\<lambda>r. Inl RequestException))) < 500
   \<and> load_existing latin1_ucd (Text (lit ''AAPL'' @ [0x0A] @ lit ''MSFT'' @ [0x0A]))
       = Inr [lit ''AAPL'', lit ''MSFT'']
   \<and> main latin1_ucd (Inl RequestException :: exn + int stockanalysis_page)
        (\<lambda>r. Inl RequestException) (Text (lit ''AAPL'' @ [0x0A] @ lit ''MSFT'' @ [0x0A]))
       = KeptExisting
   \<and> run latin1_ucd (Inl RequestException :: exn + int stockanalysis_page)
        (\<lambda>r. Inl RequestException) (Text (lit ''AAPL'' @ [0x0A] @ lit ''MSFT'' @ [0x0A]))
       = Text (lit ''AAPL'' @ [0x0A] @ lit ''MSFT'' @ [0x0A])"
proof -
  have a: "length (fetch_from_stockanalysis latin1_ucd
             (Inl RequestException :: exn + int stockanalysis_page)) < 500"
    by (simp add: fetch_from_stockanalysis_def)
  have b: "length (fst (fetch_from_finviz latin1_ucd (\<lambda>r. Inl RequestException))) < 500"
    by (simp add: fetch_from_finviz_def)
  have c: "load_existing latin1_ucd (Text (lit ''AAPL'' @ [0x0A] @ lit ''MSFT'' @ [0x0A]))
       = Inr [lit ''AAPL'', lit ''MSFT'']"
    by (simp add: load_existing_def py_splitlines_def is_linebreak_def ticker_eval)
  show ?thesis
    using a b c main_preserves_file [OF a b,
        of "Text (lit ''AAPL'' @ [0x0A] @ lit ''MSFT'' @ [0x0A])"]
    by simp
qed

lemma finalize_idem: "finalize U (finalize U tickers) = finalize U tickers"
proof -
  let ?P = "\<lambda>t. is_valid_ticker U t \<and> t \<notin> exclude"
  have s: "set (finalize U tickers) = {t \<in> set tickers. ?P t}"
    by (auto simp: finalize_def)
  then have "filter ?P (finalize U tickers) = finalize U tickers"
    by (intro filter_True) auto
  then have "finalize U (finalize U tickers) = sorted_list_of_set (set (finalize U tickers))"
    by (simp add: finalize_def)
  also have "\<dots> = finalize U tickers"
    by (simp add: finalize_def)
  finally show ?thesis .
qed

lemma main_Wrote_any_file:
  assumes "main U sa fv file = Wrote c"
  shows "main U sa fv file' = Wrote c"
proof -
  let ?A = "fetch_from_stockanalysis U sa"
  let ?B = "fst (fetch_from_finviz U fv)"
  show ?thesis
  proof (cases "length ?A < 500 \<and> length ?B < 500")
    case True
    then have "main U sa fv file \<noteq> Wrote c"
      by (auto simp: main_below_threshold split: sum.splits)
    with assms show ?thesis by simp
  next
    case False
    then show ?thesis
      using assms by (auto simp: main_def Let_def split: if_splits)
  qed
qed

text \<open>
  Claim C9. With the responses fixed, the output file after a second run is the output file
  after the first; a run that writes a text is followed by a run that writes the same text;
  and the finalize step applied to a finalized list returns that list. (The run is a function
  of the responses and of the file: the same responses give the same result.)
\<close>

theorem run_twice:
  "run U sa fv (run U sa fv file) = run U sa fv file
   \<and> (main U sa fv file = Wrote c \<longrightarrow> main U sa fv (run U sa fv file) = Wrote c)
   \<and> finalize U (finalize U tickers) = finalize U tickers"
proof (intro conjI impI)
  show "run U sa fv (run U sa fv file) = run U sa fv file"
  proof (cases "main U sa fv file")
    case (Wrote c)
    then have "main U sa fv (Text c) = Wrote c" by (rule main_Wrote_any_file)
    with Wrote show ?thesis by (simp add: run_def file_after_def)
  qed (simp_all add: run_def file_after_def)
  show "finalize U (finalize U tickers) = finalize U tickers"
    by (rule finalize_idem)
next
  assume "main U sa fv file = Wrote c"
  then show "main U sa fv (run U sa fv file) = Wrote c" by (rule main_Wrote_any_file)
qed

text \<open>
  Two runs on the page that lists \<open>AAPL\<close> 501 times, starting without a file: both write the
  line \<open>AAPL\<close>.
\<close>

theorem run_twice_witness:
  "main latin1_ucd
     (Inr \<lparr>next_data = Some (Inr (JArr (replicate 501 (JObj [(lit ''s'', JStr (lit ''AAPL''))]))
                                  :: int json)),
           stock_links = Inr []\<rparr>) (\<lambda>r. Inl RequestException) Missing
   = Wrote (lit ''AAPL'' @ [0x0A])
   \<and> run latin1_ucd
     (Inr \<lparr>next_data = Some (Inr (JArr (replicate 501 (JObj [(lit ''s'', JStr (lit ''AAPL''))]))
                                  :: int json)),
           stock_links = Inr []\<rparr>) (\<lambda>r. Inl RequestException) Missing
   = Text (lit ''AAPL'' @ [0x0A])
   \<and> main latin1_ucd
     (Inr \<lparr>next_data = Some (Inr (JArr (replicate 501 (JObj [(lit ''s'', JStr (lit ''AAPL''))]))
                                  :: int json)),
           stock_links = Inr []\<rparr>) (\<lambda>r. Inl RequestException) (Text (lit ''AAPL'' @ [0x0A]))
   = Wrote (lit ''AAPL'' @ [0x0A])
   \<and> run latin1_ucd
     (Inr \<lparr>next_data = Some (Inr (JArr (replicate 501 (JObj [(lit ''s'', JStr (lit ''AAPL''))]))
                                  :: int json)),
           stock_links = Inr []\<rparr>) (\<lambda>r. Inl RequestException) (Text (lit ''AAPL'' @ [0x0A]))
   = Text (lit ''AAPL'' @ [0x0A])"
proof -
  let ?sa = "Inr \<lparr>next_data = Some (Inr (JArr (replicate 501
                       (JObj [(lit ''s'', JStr (lit ''AAPL''))])) :: int json)),
                  stock_links = Inr []\<rparr>"
  have w: "main latin1_ucd ?sa (\<lambda>r. Inl RequestException) Missing
           = Wrote (lit ''AAPL'' @ [0x0A])"
    by (rule main_writes_repeated)
  then have r: "run latin1_ucd ?sa (\<lambda>r. Inl RequestException) Missing
                = Text (lit ''AAPL'' @ [0x0A])"
    by (simp add: run_def file_after_def)
  show ?thesis
    using w r run_twice [of latin1_ucd ?sa "\<lambda>r. Inl RequestException" Missing
                           "lit ''AAPL'' @ [0x0A]"]
    by simp
qed

end
